theory Spec2Isabelle
  imports Main "HOL-Library.Word"
begin

section \<open>Python strings and bytes\<close>

text \<open>
  A Python \<open>str\<close> is a sequence of Unicode code points, so it is modelled as a list of
  natural numbers (a \<open>char\<close> of HOL holds one byte only, which is too small for the text
  that \<open>bytes.decode("utf-8")\<close> returns). \<open>str\<close> turns an ASCII literal into that form.
  A Python \<open>bytes\<close> value is a list of 8-bit words.
\<close>

type_synonym pstr = "nat list"
type_synonym byte = "8 word"

definition str :: "string \<Rightarrow> pstr" where
  "str s = map of_char s"

text \<open>\<open>s.startswith(p)\<close> and \<open>s.endswith(p)\<close>\<close>

definition startswith :: "'a list \<Rightarrow> 'a list \<Rightarrow> bool" where
  "startswith s p = (take (length p) s = p)"

definition endswith :: "'a list \<Rightarrow> 'a list \<Rightarrow> bool" where
  "endswith s p = (length p \<le> length s \<and> drop (length s - length p) s = p)"

text \<open>
  The slice \<open>s[: -n]\<close> for \<open>n = len(...)\<close>, a non-negative number. Python reads \<open>-0\<close> as
  \<open>0\<close>, so \<open>s[: -0]\<close> is empty; for \<open>n > 0\<close> the stop index \<open>len(s) - n\<close> is clamped
  at \<open>0\<close>.
\<close>

definition slice_to_neg :: "'a list \<Rightarrow> nat \<Rightarrow> 'a list" where
  "slice_to_neg s n = (if n = 0 then [] else take (length s - n) s)"

text \<open>\<open>s.split(sep)\<close> for a one-character separator: empty pieces are kept, and the
  empty string splits into one empty piece.\<close>

fun split :: "'a \<Rightarrow> 'a list \<Rightarrow> 'a list list" where
  "split c [] = [[]]"
| "split c (x # xs) =
     (let r = split c xs in if x = c then [] # r else (x # hd r) # tl r)"

text \<open>\<open>sep.join(pieces)\<close>\<close>

fun join :: "'a list \<Rightarrow> 'a list list \<Rightarrow> 'a list" where
  "join sep [] = []"
| "join sep [p] = p"
| "join sep (p # q # ps) = p @ sep @ join sep (q # ps)"

section \<open>Exceptions\<close>

text \<open>
  The exceptions that the code and the library calls it makes can raise.
  \<open>UnicodeError\<close>, \<open>UnicodeDecodeError\<close> and \<open>UnicodeEncodeError\<close> are subclasses of
  \<open>ValueError\<close> in Python, which is what \<open>except ValueError\<close> tests; \<open>DNSError\<close> and \<open>ResolverError\<close> stand for whatever
  the DNS codec and the resolver raise.
\<close>

datatype exn =
  ValueError | UnicodeError | UnicodeDecodeError | UnicodeEncodeError | TypeError | DNSError
  | ResolverError

fun is_ValueError :: "exn \<Rightarrow> bool" where
  "is_ValueError ValueError = True"
| "is_ValueError UnicodeError = True"
| "is_ValueError UnicodeDecodeError = True"
| "is_ValueError UnicodeEncodeError = True"
| "is_ValueError _ = False"

section \<open>DNSLoggerHelper\<close>

subsection \<open>parse_suffix\<close>

definition parse_suffix :: "pstr \<Rightarrow> pstr" where
  "parse_suffix suffix =
     (let suffix1 = (if suffix \<noteq> [] \<and> \<not> startswith suffix (str ''.'')
                     then str ''.'' @ suffix else suffix);
          suffix2 = (if suffix1 \<noteq> [] \<and> \<not> endswith suffix1 (str ''.'')
                     then suffix1 @ str ''.'' else suffix1)
      in suffix2)"

subsection \<open>decode_hex\<close>

text \<open>
  \<open>bytes.fromhex(s)\<close> as CPython implements it: before each pair of digits a run of
  ASCII whitespace (space, \<open>\t\<close>, \<open>\n\<close>, \<open>\v\<close>, \<open>\f\<close>, \<open>\r\<close>) is skipped; then two
  hexadecimal digits (either case) make one byte. Anything else, also the end of the
  string after a first digit and every non-ASCII character, raises \<open>ValueError\<close>.
\<close>

definition py_isspace :: "nat \<Rightarrow> bool" where
  "py_isspace c = (c = 32 \<or> (9 \<le> c \<and> c \<le> 13))"

definition hex_val :: "nat \<Rightarrow> nat option" where
  "hex_val c =
     (if 48 \<le> c \<and> c \<le> 57 then Some (c - 48)
      else if 97 \<le> c \<and> c \<le> 102 then Some (c - 87)
      else if 65 \<le> c \<and> c \<le> 70 then Some (c - 55)
      else None)"

fun fromhex :: "pstr \<Rightarrow> exn + byte list" where
  "fromhex [] = Inr []"
| "fromhex [c] = (if py_isspace c then Inr [] else Inl ValueError)"
| "fromhex (c # d # ds) =
     (if py_isspace c then fromhex (d # ds)
      else (case hex_val c of
              None \<Rightarrow> Inl ValueError
            | Some hi \<Rightarrow>
                (case hex_val d of
                   None \<Rightarrow> Inl ValueError
                 | Some lo \<Rightarrow>
                     (case fromhex ds of
                        Inl e \<Rightarrow> Inl e
                      | Inr bs \<Rightarrow> Inr (of_nat (hi * 16 + lo) # bs)))))"

text \<open>
  \<open>b.decode("utf-8")\<close> with the default strict error handling: the shortest-form
  encodings of the code points \<open>0 .. 0x10FFFF\<close> without the surrogates
  \<open>0xD800 .. 0xDFFF\<close> are accepted, every other byte sequence raises
  \<open>UnicodeDecodeError\<close>.
\<close>

definition is_cont :: "byte \<Rightarrow> bool" where
  "is_cont b = (128 \<le> unat b \<and> unat b \<le> 191)"

definition cont :: "byte \<Rightarrow> nat" where
  "cont b = unat b - 128"

definition cons_ok :: "nat \<Rightarrow> exn + pstr \<Rightarrow> exn + pstr" where
  "cons_ok cp r = (case r of Inl e \<Rightarrow> Inl e | Inr t \<Rightarrow> Inr (cp # t))"

fun utf8_decode :: "byte list \<Rightarrow> exn + pstr" where
  "utf8_decode [] = Inr []"
| "utf8_decode (b0 # bs) =
     (if unat b0 < 128 then cons_ok (unat b0) (utf8_decode bs)
      else if 194 \<le> unat b0 \<and> unat b0 \<le> 223 then
        (case bs of
           b1 # r \<Rightarrow>
             if is_cont b1
             then cons_ok ((unat b0 - 192) * 64 + cont b1) (utf8_decode r)
             else Inl UnicodeDecodeError
         | _ \<Rightarrow> Inl UnicodeDecodeError)
      else if 224 \<le> unat b0 \<and> unat b0 \<le> 239 then
        (case bs of
           b1 # b2 # r \<Rightarrow>
             (let cp = (unat b0 - 224) * 4096 + cont b1 * 64 + cont b2
              in if is_cont b1 \<and> is_cont b2 \<and> 2048 \<le> cp \<and> (cp < 55296 \<or> 57343 < cp)
                 then cons_ok cp (utf8_decode r)
                 else Inl UnicodeDecodeError)
         | _ \<Rightarrow> Inl UnicodeDecodeError)
      else if 240 \<le> unat b0 \<and> unat b0 \<le> 244 then
        (case bs of
           b1 # b2 # b3 # r \<Rightarrow>
             (let cp = (unat b0 - 240) * 262144 + cont b1 * 4096 + cont b2 * 64 + cont b3
              in if is_cont b1 \<and> is_cont b2 \<and> is_cont b3 \<and> 65536 \<le> cp \<and> cp \<le> 1114111
                 then cons_ok cp (utf8_decode r)
                 else Inl UnicodeDecodeError)
         | _ \<Rightarrow> Inl UnicodeDecodeError)
      else Inl UnicodeDecodeError)"

text \<open>
  \<open>decode_hex\<close> (lines 19-25): the \<open>try\<close> body is \<open>bytes.fromhex(data).decode("utf-8")\<close>;
  \<open>except ValueError: pass\<close> catches \<open>ValueError\<close> and its subclasses and leaves
  \<open>data\<close> as it was; any other exception would leave the function.
\<close>

definition decode_hex :: "pstr \<Rightarrow> exn + pstr" where
  "decode_hex data =
     (case (case fromhex data of Inl e \<Rightarrow> Inl e | Inr bs \<Rightarrow> utf8_decode bs) of
        Inr t \<Rightarrow> Inr t
      | Inl e \<Rightarrow> if is_ValueError e then Inr data else Inl e)"

text \<open>
  The encoding direction that the round-trip property refers to: Python's
  \<open>bytes.hex()\<close>, two lower-case digits per byte.
\<close>

definition hexdigit :: "nat \<Rightarrow> nat" where
  "hexdigit d = (if d < 10 then 48 + d else 87 + d)"

definition hex :: "byte list \<Rightarrow> pstr" where
  "hex bs = concat (map (\<lambda>b. [hexdigit (unat b div 16), hexdigit (unat b mod 16)]) bs)"

text \<open>
  The text side of the round trip: Python's \<open>t.encode("utf-8")\<close>, which raises
  \<open>UnicodeEncodeError\<close> on a surrogate; a number above \<open>0x10FFFF\<close> is no code point
  of a Python string at all.
\<close>

definition byte_of :: "nat \<Rightarrow> byte" where
  "byte_of n = of_nat n"

definition append_ok :: "byte list \<Rightarrow> exn + byte list \<Rightarrow> exn + byte list" where
  "append_ok bs r = (case r of Inl e \<Rightarrow> Inl e | Inr t \<Rightarrow> Inr (bs @ t))"

fun utf8_encode :: "pstr \<Rightarrow> exn + byte list" where
  "utf8_encode [] = Inr []"
| "utf8_encode (cp # t) =
     (if cp < 128 then append_ok [byte_of cp] (utf8_encode t)
      else if cp < 2048 then
        append_ok [byte_of (192 + cp div 64), byte_of (128 + cp mod 64)] (utf8_encode t)
      else if cp < 65536 then
        (if 55296 \<le> cp \<and> cp \<le> 57343 then Inl UnicodeEncodeError
         else append_ok [byte_of (224 + cp div 4096), byte_of (128 + cp div 64 mod 64),
                         byte_of (128 + cp mod 64)] (utf8_encode t))
      else if cp \<le> 1114111 then
        append_ok [byte_of (240 + cp div 262144), byte_of (128 + cp div 4096 mod 64),
                   byte_of (128 + cp div 64 mod 64), byte_of (128 + cp mod 64)] (utf8_encode t)
      else Inl UnicodeEncodeError)"

text \<open>
  A valid hex string in the words of the specification: a sequence of hexadecimal
  digit pairs, that is, hexadecimal digits only and an even number of them.
\<close>

definition is_hexdigit :: "nat \<Rightarrow> bool" where
  "is_hexdigit c = (hex_val c \<noteq> None)"

definition is_hex_string :: "pstr \<Rightarrow> bool" where
  "is_hex_string x = (even (length x) \<and> list_all is_hexdigit x)"

text \<open>
  Hex decoding of a label fails when the \<open>try\<close> body of \<open>decode_hex\<close> raises:
  \<open>bytes.fromhex\<close> does, or the bytes it gives are rejected by \<open>decode("utf-8")\<close>.
\<close>

definition decode_fails :: "pstr \<Rightarrow> bool" where
  "decode_fails x =
     (case fromhex x of
        Inl e \<Rightarrow> True
      | Inr bs \<Rightarrow> (case utf8_decode bs of Inl e \<Rightarrow> True | Inr t \<Rightarrow> False))"

text \<open>The string that \<open>decode_hex\<close> returns, when it returns.\<close>

definition decode_label :: "pstr \<Rightarrow> pstr" where
  "decode_label x = (case decode_hex x of Inr y \<Rightarrow> y | Inl e \<Rightarrow> x)"

subsection \<open>remove_suffix\<close>

definition remove_suffix :: "pstr \<Rightarrow> pstr \<Rightarrow> pstr" where
  "remove_suffix data suffix =
     (if suffix \<noteq> [] \<and> endswith data suffix
      then slice_to_neg data (length suffix) else data)"

section \<open>DNS messages and question objects\<close>

text \<open>
  Modelled from the spec: the question and message types of the DNS library
  (\<open>dnslib\<close> is imported by the program and is not part of its source). A question is
  "an opaque wire-level question record exposing a gettable/settable fully-qualified
  name"; \<open>get_qname\<close> gives the name in its dot-terminated text form (the setter is
  further down). A message as it is on the wire has a header, its questions and the
  remaining sections, the header and the remaining sections being opaque here.
\<close>

record question =
  qname :: pstr
  qtype :: nat
  qclass :: nat

definition get_qname :: "question \<Rightarrow> pstr" where
  "get_qname q = qname q"

record message =
  m_header :: "byte list"
  m_questions :: "question list"
  m_rest :: "byte list"

text \<open>
  Question objects are mutable and shared by reference, so they live in a store: a map
  from addresses to questions and the next free address. A \<open>DNSRecord\<close> object holds
  the addresses of its question objects.
\<close>

type_synonym addr = nat

record store =
  cells :: "addr \<Rightarrow> question"
  next_addr :: addr

record DNSRecord =
  header :: "byte list"
  questions :: "addr list"
  rest :: "byte list"

definition alloc :: "store \<Rightarrow> question \<Rightarrow> addr \<times> store" where
  "alloc s q = (next_addr s, s\<lparr>cells := (cells s)(next_addr s := q), next_addr := Suc (next_addr s)\<rparr>)"

fun alloc_all :: "store \<Rightarrow> question list \<Rightarrow> addr list \<times> store" where
  "alloc_all s [] = ([], s)"
| "alloc_all s (q # qs) =
     (let (a, s1) = alloc s q; (as, s2) = alloc_all s1 qs in (a # as, s2))"

text \<open>Building the objects of a parsed message, and reading a record back as a message.\<close>

definition new_record :: "store \<Rightarrow> message \<Rightarrow> DNSRecord \<times> store" where
  "new_record s m =
     (let (as, s1) = alloc_all s (m_questions m)
      in (\<lparr>header = m_header m, questions = as, rest = m_rest m\<rparr>, s1))"

definition read_record :: "store \<Rightarrow> DNSRecord \<Rightarrow> message" where
  "read_record s r =
     \<lparr>m_header = header r, m_questions = map (cells s) (questions r), m_rest = rest r\<rparr>"

text \<open>\<open>copy.deepcopy(record)\<close>: a new record whose questions are new objects.\<close>

definition deepcopy :: "store \<Rightarrow> DNSRecord \<Rightarrow> DNSRecord \<times> store" where
  "deepcopy s r = new_record s (read_record s r)"

text \<open>
  \<open>get_q\<close> of the DNS library (not part of the source) gives the record's first
  question object; for a record without a question it makes a new question object,
  taken here with the root name, type A and class IN.
\<close>

definition default_question :: question where
  "default_question = \<lparr>qname = str ''.'', qtype = 1, qclass = 1\<rparr>"

definition get_q :: "store \<Rightarrow> DNSRecord \<Rightarrow> addr \<times> store" where
  "get_q s r = (case questions r of a # _ \<Rightarrow> (a, s) | [] \<Rightarrow> alloc s default_question)"

text \<open>
  The operations the program takes from outside its source: the DNS codec
  (\<open>DNSRecord.parse\<close>, \<open>pack\<close>), the resolver, the text forms that the f-string
  of \<open>log\<close> asks for (\<open>str\<close> of the sender address and of the question object), and
  the part of the name setter that is not modelled below.
\<close>

record 'c lib =
  dns_parse :: "byte list \<Rightarrow> exn + message"
  dns_pack :: "message \<Rightarrow> byte list"
  resolve :: "message \<Rightarrow> exn + message"
  str_sender :: "'c \<Rightarrow> pstr"
  str_question :: "question \<Rightarrow> pstr"
  label_text_other :: "pstr \<Rightarrow> exn + pstr"

subsection \<open>The name setter\<close>

text \<open>
  \<open>set_qname\<close> of the DNS library (not part of the source) makes a label object from
  the string it is given: the empty string and \<open>.\<close> give the root name; any other
  string is encoded with the \<open>idna\<close> codec of the Python standard library, cut at the
  dots, and shown again with a dot after each label. The codec's path for ASCII text
  raises \<open>UnicodeError\<close> when a label other than the last is empty or has 64
  characters or more, or when the last has 64 or more. This is modelled as it is for
  names without a backslash (which the library may read as an escape). The text that
  results for a name holding anything but letters, digits, hyphens and dots (escapes for
  other bytes, the IDNA encoding of non-ASCII text, which may raise as well) is left to
  the parameter \<open>label_text_other\<close>.
\<close>

definition plain_char :: "nat \<Rightarrow> bool" where
  "plain_char c =
     ((48 \<le> c \<and> c \<le> 57) \<or> (65 \<le> c \<and> c \<le> 90) \<or> (97 \<le> c \<and> c \<le> 122) \<or> c = 45 \<or> c = 46)"

definition idna_ascii_ok :: "pstr \<Rightarrow> bool" where
  "idna_ascii_ok name =
     (list_all (\<lambda>l. 0 < length l \<and> length l < 64) (butlast (split 46 name)) \<and>
      length (last (split 46 name)) < 64)"

definition label_text :: "'c lib \<Rightarrow> pstr \<Rightarrow> exn + pstr" where
  "label_text L name =
     (if name = [] \<or> name = str ''.'' then Inr (str ''.'')
      else if list_all (\<lambda>c. c < 128 \<and> c \<noteq> 92) name \<and> \<not> idna_ascii_ok name
      then Inl UnicodeError
      else if list_all plain_char name
      then Inr (if endswith name (str ''.'') then name else name @ str ''.'')
      else label_text_other L name)"

definition set_qname :: "'c lib \<Rightarrow> question \<Rightarrow> pstr \<Rightarrow> exn + question" where
  "set_qname L q name =
     (case label_text L name of Inl e \<Rightarrow> Inl e | Inr t \<Rightarrow> Inr (q\<lparr>qname := t\<rparr>))"

section \<open>DNSLogger\<close>

record DNSLogger =
  suffix :: pstr
  hex_encoded :: bool

definition DNSLogger_init :: "pstr \<Rightarrow> bool \<Rightarrow> DNSLogger" where
  "DNSLogger_init sfx hex_enc = \<lparr>suffix = parse_suffix sfx, hex_encoded = hex_enc\<rparr>"

text \<open>\<open>map(f, xs)\<close> consumed from left to right: the first exception leaves the loop.\<close>

fun map_exn :: "('a \<Rightarrow> exn + 'b) \<Rightarrow> 'a list \<Rightarrow> exn + 'b list" where
  "map_exn f [] = Inr []"
| "map_exn f (x # xs) =
     (case f x of
        Inl e \<Rightarrow> Inl e
      | Inr y \<Rightarrow> (case map_exn f xs of Inl e \<Rightarrow> Inl e | Inr ys \<Rightarrow> Inr (y # ys)))"

text \<open>
  \<open>parse_question\<close> (lines 39-47) changes the question object it is given and returns
  it; the function gives the new value of that object, or the exception that the setter
  raises. \<open>render_name\<close> is the string built on lines 44-46 and handed to the setter.
\<close>

definition render_name :: "DNSLogger \<Rightarrow> pstr \<Rightarrow> exn + pstr" where
  "render_name self name =
     (let suffixed = remove_suffix name (suffix self)
      in case map_exn decode_hex (split 46 suffixed) of
           Inl e \<Rightarrow> Inl e
         | Inr subdomains \<Rightarrow> Inr (join (str ''.'') subdomains @ suffix self))"

definition parse_question :: "DNSLogger \<Rightarrow> 'c lib \<Rightarrow> question \<Rightarrow> exn + question" where
  "parse_question self L q =
     (if \<not> hex_encoded self then Inr q
      else
        (case render_name self (get_qname q) of
           Inl e \<Rightarrow> Inl e
         | Inr name \<Rightarrow> set_qname L q name))"

text \<open>
  \<open>log\<close> (lines 49-51): the question object of the record it is given is rendered in
  place, and one \<open>print\<close> call writes the line; the output is the list of the texts
  printed so far. An exception from \<open>parse_question\<close> leaves \<open>log\<close> before the
  \<open>print\<close>.
\<close>

definition log :: "DNSLogger \<Rightarrow> 'c lib \<Rightarrow> 'c \<Rightarrow> store \<Rightarrow> DNSRecord \<Rightarrow> pstr list
                    \<Rightarrow> exn + (store \<times> pstr list)" where
  "log self L sender s parsed_req out =
     (let (a, s1) = get_q s parsed_req
      in case parse_question self L (cells s1 a) of
           Inl e \<Rightarrow> Inl e
         | Inr q' \<Rightarrow>
             Inr (s1\<lparr>cells := (cells s1)(a := q')\<rparr>,
                  out @ [str_sender L sender @ str '': '' @ str_question L q']))"

section \<open>DNSHandler and the server\<close>

text \<open>
  What a handler can change outside itself: the lines printed, the datagrams sent on
  the socket, and the tracebacks written by the server's error hook. \<open>resolver_calls\<close>
  records the request messages that the resolver has been given, as they were at the
  time of the call.
\<close>

record 'c world =
  stdout :: "pstr list"
  sent :: "(byte list \<times> 'c) list"
  resolver_calls :: "message list"
  stderr :: "exn list"

definition empty_store :: store where
  "empty_store = \<lparr>cells = (\<lambda>_. default_question), next_addr = 0\<rparr>"

text \<open>
  \<open>handle\<close> (lines 55-61). The objects made for one datagram are reachable from that
  handler only, so each call starts from an empty store.
\<close>

definition handle :: "DNSLogger \<Rightarrow> 'c lib \<Rightarrow> byte list \<times> 'c \<Rightarrow> 'c world \<Rightarrow> (exn + unit) \<times> 'c world" where
  "handle logger L request w =
     (let (data, client_address) = request
      in case dns_parse L data of
           Inl e \<Rightarrow> (Inl e, w)
         | Inr m \<Rightarrow>
             (let (parsed_req, s1) = new_record empty_store m;
                  (copy, s2) = deepcopy s1 parsed_req
              in case log logger L client_address s2 copy (stdout w) of
                   Inl e \<Rightarrow> (Inl e, w)
                 | Inr (s3, out) \<Rightarrow>
                     (let req = read_record s3 parsed_req;
                          w1 = w\<lparr>stdout := out, resolver_calls := resolver_calls w @ [req]\<rparr>
                      in case resolve L req of
                           Inl e \<Rightarrow> (Inl e, w1)
                         | Inr response \<Rightarrow>
                             (Inr (), w1\<lparr>sent := sent w1 @ [(dns_pack L response, client_address)]\<rparr>))))"



text \<open>
  Projections used to state properties: the question that \<open>get_q\<close> gives for the
  record of a message, and what a run of the server shows to the outside (the lines
  printed, the datagrams sent, the requests given to the resolver).
\<close>

definition first_question :: "message \<Rightarrow> question" where
  "first_question m = (case m_questions m of q # _ \<Rightarrow> q | [] \<Rightarrow> default_question)"


text \<open>
  A concrete instance of the outside operations, for evaluating the handler: a codec
  that rejects the empty datagram, reads the datagram \<open>[1]\<close> as a query for
  \<open>68656c6c6f.c2.test.\<close> and every other one as a query for \<open>6869.example.com.\<close>,
  a resolver that answers with the request under another header, and text forms that
  show the sender as it is and a question by its name.
\<close>

definition example_message :: message where
  "example_message =
     \<lparr>m_header = [0],
      m_questions = [\<lparr>qname = str ''68656c6c6f.c2.test.'', qtype = 1, qclass = 1\<rparr>],
      m_rest = []\<rparr>"

definition other_message :: message where
  "other_message =
     \<lparr>m_header = [0],
      m_questions = [\<lparr>qname = str ''6869.example.com.'', qtype = 1, qclass = 1\<rparr>],
      m_rest = []\<rparr>"

definition example_lib :: "pstr lib" where
  "example_lib =
     \<lparr>dns_parse = (\<lambda>d. if d = [] then Inl DNSError
                       else if d = [1] then Inr example_message else Inr other_message),
      dns_pack = m_header,
      resolve = (\<lambda>m. Inr (m\<lparr>m_header := [1]\<rparr>)),
      str_sender = (\<lambda>c. c),
      str_question = qname,
      label_text_other = (\<lambda>name. Inr name)\<rparr>"

definition example_world :: "pstr world" where
  "example_world = \<lparr>stdout = [], sent = [], resolver_calls = [], stderr = []\<rparr>"

section \<open>Properties of the string helpers\<close>

lemma str_dot: "str ''.'' = [46]"
  by (simp add: str_def)

lemma startswith_dot: "startswith s [46] = (s \<noteq> [] \<and> hd s = 46)"
  by (cases s) (auto simp: startswith_def)

lemma endswith_dot: "endswith s [46] = (s \<noteq> [] \<and> last s = 46)"
proof (cases s rule: rev_cases)
  case Nil
  then show ?thesis by (simp add: endswith_def)
next
  case (snoc ys y)
  then show ?thesis by (auto simp: endswith_def)
qed

lemma split_not_Nil: "split c xs \<noteq> []"
  by (induction xs) (simp_all add: Let_def)

lemma endswith_append: "endswith (p @ s) s"
  by (simp add: endswith_def)

lemma endswith_iff: "endswith d s = (\<exists>p. d = p @ s)"
proof
  assume "endswith d s"
  then have "d = take (length d - length s) d @ s"
    by (metis append_take_drop_id endswith_def)
  then show "\<exists>p. d = p @ s" ..
next
  assume "\<exists>p. d = p @ s"
  then show "endswith d s" by (auto simp: endswith_append)
qed

section \<open>Properties of decode_hex\<close>

lemma hex_val_hexdigit: "d < 16 \<Longrightarrow> hex_val (hexdigit d) = Some d"
  by (simp add: hex_val_def hexdigit_def)

lemma not_space_hexdigit: "d < 16 \<Longrightarrow> \<not> py_isspace (hexdigit d)"
  by (simp add: py_isspace_def hexdigit_def)

lemma unat_byte_div16: "unat (b::byte) div 16 < 16"
proof -
  have "unat b < 256" using unsigned_less [of b] by simp
  then show ?thesis by simp
qed

lemma fromhex_pair:
  assumes "hi < 16" "lo < 16"
  shows "fromhex (hexdigit hi # hexdigit lo # ds) =
         (case fromhex ds of Inl e \<Rightarrow> Inl e | Inr bs \<Rightarrow> Inr (of_nat (hi * 16 + lo) # bs))"
  using assms by (simp add: hex_val_hexdigit not_space_hexdigit)

lemma fromhex_hex: "fromhex (hex bs) = Inr bs"
proof (induction bs)
  case Nil
  show ?case by (simp add: hex_def)
next
  case (Cons b bs)
  have "hex (b # bs) = hexdigit (unat b div 16) # hexdigit (unat b mod 16) # hex bs"
    by (simp add: hex_def)
  moreover have "(of_nat (unat b div 16 * 16 + unat b mod 16) :: byte) = b" by simp
  ultimately show ?case
    using Cons.IH fromhex_pair [of "unat b div 16" "unat b mod 16" "hex bs"] unat_byte_div16 [of b]
    by simp
qed

lemma fromhex_only_ValueError: "fromhex x = Inl e \<Longrightarrow> e = ValueError"
  by (induction x arbitrary: e rule: fromhex.induct)
     (auto split: if_splits option.splits sum.splits)

lemma cons_ok_Inl: "cons_ok cp r = Inl e \<Longrightarrow> r = Inl e"
  by (auto simp: cons_ok_def split: sum.splits)

lemma utf8_decode_only_UnicodeDecodeError:
  "utf8_decode bs = Inl e \<Longrightarrow> e = UnicodeDecodeError"
proof (induction bs arbitrary: e rule: length_induct)
  case (1 bs)
  show ?case
  proof (cases bs)
    case Nil
    with 1 show ?thesis by simp
  next
    case (Cons b0 r0)
    have IH: "\<And>r e'. length r < length bs \<Longrightarrow> utf8_decode r = Inl e' \<Longrightarrow> e' = UnicodeDecodeError"
      using 1 by blast
    have sub: "\<And>cp r. length r < length bs \<Longrightarrow> cons_ok cp (utf8_decode r) = Inl e \<Longrightarrow> e = UnicodeDecodeError"
      using IH cons_ok_Inl by blast
    from 1(2) Cons show ?thesis
      by (auto simp: Let_def split: if_splits list.splits dest: sub [rotated])
  qed
qed

lemma fromhex_nospace:
  "list_all (\<lambda>c. \<not> py_isspace c) x \<Longrightarrow> fromhex x = Inr bs \<Longrightarrow> is_hex_string x"
  by (induction x arbitrary: bs rule: fromhex.induct)
     (auto simp: is_hex_string_def is_hexdigit_def split: if_splits option.splits sum.splits)

lemma decode_hex_fromhex_fails: "fromhex x = Inl e \<Longrightarrow> decode_hex x = Inr x"
  by (auto simp: decode_hex_def dest: fromhex_only_ValueError)

lemma decode_hex_utf8_fails:
  "fromhex x = Inr bs \<Longrightarrow> utf8_decode bs = Inl e \<Longrightarrow> decode_hex x = Inr x"
  by (auto simp: decode_hex_def dest: utf8_decode_only_UnicodeDecodeError)

lemma decode_hex_ok:
  "fromhex x = Inr bs \<Longrightarrow> utf8_decode bs = Inr t \<Longrightarrow> decode_hex x = Inr t"
  by (simp add: decode_hex_def)

lemma decode_hex_total: "\<exists>y. decode_hex x = Inr y"
proof (cases "fromhex x")
  case (Inl e)
  then show ?thesis by (auto dest: decode_hex_fromhex_fails)
next
  case (Inr bs)
  then show ?thesis
    by (cases "utf8_decode bs") (auto dest: decode_hex_utf8_fails decode_hex_ok)
qed

lemma decode_hex_cases: "decode_hex x = Inr (decode_label x)"
  using decode_hex_total [of x] by (auto simp: decode_label_def)

lemma fromhex_68_65: "fromhex (str ''68 65'') = Inr [104, 101]"
  by (simp add: str_def hex_val_def py_isspace_def)

lemma utf8_decode_he: "utf8_decode [104, 101] = Inr (str ''he'')"
  by (simp add: cons_ok_def str_def)

lemma hex_hello: "hex [104, 101, 108, 108, 111] = str ''68656c6c6f''"
  by (simp add: hex_def hexdigit_def str_def)

lemma utf8_decode_hello: "utf8_decode [104, 101, 108, 108, 111] = Inr (str ''hello'')"
  by (simp add: cons_ok_def str_def)

lemma utf8_decode_c328: "utf8_decode [195, 40] = Inl UnicodeDecodeError"
  by (simp add: is_cont_def)

section \<open>Properties of parse_question\<close>

lemma map_exn_decode_hex: "map_exn decode_hex xs = Inr (map decode_label xs)"
  by (induction xs) (simp_all add: decode_hex_cases)

lemma render_name_eq:
  "render_name self name =
     Inr (join [46] (map decode_label (split 46 (remove_suffix name (suffix self)))) @ suffix self)"
  by (simp add: render_name_def Let_def map_exn_decode_hex str_dot)

lemma parse_question_eq:
  "parse_question self L q =
     (if hex_encoded self
      then set_qname L q (join [46] (map decode_label (split 46 (remove_suffix (qname q) (suffix self))))
                            @ suffix self)
      else Inr q)"
  by (simp add: parse_question_def render_name_eq get_qname_def)

lemma decode_label_eq: "decode_hex x = Inr y \<Longrightarrow> decode_label x = y"
  by (simp add: decode_label_def)

lemma split_68656c6c6f: "split 46 (str ''68656c6c6f'') = [str ''68656c6c6f'']"
  by (simp add: str_def)

lemma parse_suffix_c2_test: "parse_suffix (str ''c2.test'') = str ''.c2.test.''"
  by (simp add: parse_suffix_def Let_def startswith_def endswith_def str_def)

lemma remove_suffix_c2_test:
  "remove_suffix (str ''68656c6c6f.c2.test.'') (str ''.c2.test.'') = str ''68656c6c6f''"
  by (simp add: remove_suffix_def endswith_def slice_to_neg_def str_def)

lemma decode_label_hello: "decode_label (str ''68656c6c6f'') = str ''hello''"
proof -
  have "decode_hex (hex [104, 101, 108, 108, 111]) = Inr (str ''hello'')"
    by (rule decode_hex_ok [OF fromhex_hex utf8_decode_hello])
  then show ?thesis by (simp add: hex_hello decode_label_eq)
qed

lemma hello_name:
  "join [46] (map decode_label (split 46 (str ''68656c6c6f''))) @ str ''.c2.test.''
     = str ''hello.c2.test.''"
  unfolding split_68656c6c6f by (simp add: decode_label_hello) (simp add: str_def)

lemma split_6869: 
  "split 46 (str ''6869.example.com.'') = [str ''6869'', str ''example'', str ''com'', str '''']"
  by (simp add: str_def)

lemma decode_label_6869: "decode_label (str ''6869'') = str ''hi''"
proof -
  have f: "fromhex (str ''6869'') = Inr [104, 105]"
    by (simp add: str_def hex_val_def py_isspace_def)
  have u: "utf8_decode [104, 105] = Inr (str ''hi'')"
    by (simp add: cons_ok_def str_def)
  show ?thesis by (rule decode_label_eq [OF decode_hex_ok [OF f u]])
qed

lemma decode_label_example: "decode_label (str ''example'') = str ''example''"
proof -
  have f: "fromhex (str ''example'') = Inl ValueError"
    by (simp add: str_def hex_val_def py_isspace_def)
  show ?thesis by (rule decode_label_eq [OF decode_hex_fromhex_fails [OF f]])
qed

lemma decode_label_com: "decode_label (str ''com'') = str ''com''"
proof -
  have f: "fromhex (str ''com'') = Inl ValueError"
    by (simp add: str_def hex_val_def py_isspace_def)
  show ?thesis by (rule decode_label_eq [OF decode_hex_fromhex_fails [OF f]])
qed

lemma decode_label_empty: "decode_label (str '''') = str ''''"
proof -
  have f: "fromhex (str '''') = Inr []" by (simp add: str_def)
  have u: "utf8_decode [] = Inr (str '''')" by (simp add: str_def)
  show ?thesis by (rule decode_label_eq [OF decode_hex_ok [OF f u]])
qed

lemma other_name:
  "join [46] (map decode_label (split 46 (str ''6869.example.com.''))) @ str ''.c2.test.''
     = str ''hi.example.com..c2.test.''"
  unfolding split_6869
  by (simp add: decode_label_6869 decode_label_example decode_label_com decode_label_empty)
     (simp add: str_def)

lemma remove_suffix_other:
  "remove_suffix (str ''6869.example.com.'') (str ''.c2.test.'') = str ''6869.example.com.''"
  by (simp add: remove_suffix_def endswith_def str_def)

section \<open>Properties of the name setter\<close>

lemma split_hello_name:
  "split 46 (str ''hello.c2.test.'') = [str ''hello'', str ''c2'', str ''test'', []]"
  by (simp add: str_def)

lemma label_text_hello: "label_text L (str ''hello.c2.test.'') = Inr (str ''hello.c2.test.'')"
proof -
  have ok: "idna_ascii_ok (str ''hello.c2.test.'')"
    unfolding idna_ascii_ok_def split_hello_name by (simp add: str_def)
  have pl: "list_all plain_char (str ''hello.c2.test.'')"
    by (simp add: str_def plain_char_def)
  have ne: "str ''hello.c2.test.'' \<noteq> [] \<and> str ''hello.c2.test.'' \<noteq> str ''.''"
    by (simp add: str_def)
  have en: "endswith (str ''hello.c2.test.'') (str ''.'')"
    by (simp add: endswith_def str_def)
  show ?thesis using ok pl ne en by (simp add: label_text_def)
qed

lemma split_other_name:
  "split 46 (str ''hi.example.com..c2.test.'')
     = [str ''hi'', str ''example'', str ''com'', [], str ''c2'', str ''test'', []]"
  by (simp add: str_def)

lemma label_text_other_name:
  "label_text L (str ''hi.example.com..c2.test.'') = Inl UnicodeError"
proof -
  have bad: "\<not> idna_ascii_ok (str ''hi.example.com..c2.test.'')"
    unfolding idna_ascii_ok_def split_other_name by (simp add: str_def)
  have asc: "list_all (\<lambda>c. c < 128 \<and> c \<noteq> 92) (str ''hi.example.com..c2.test.'')"
    by (simp add: str_def)
  have ne: "str ''hi.example.com..c2.test.'' \<noteq> [] \<and> str ''hi.example.com..c2.test.'' \<noteq> str ''.''"
    by (simp add: str_def)
  show ?thesis using bad asc ne by (simp add: label_text_def)
qed

lemma split_append: "split c (xs @ c # ys) = split c xs @ split c ys"
proof (induction xs)
  case Nil
  show ?case by (simp add: Let_def)
next
  case (Cons x xs)
  have ne: "split c xs \<noteq> []" by (rule split_not_Nil)
  show ?case
  proof (cases "x = c")
    case True
    then show ?thesis by (simp add: Cons.IH Let_def)
  next
    case False
    then show ?thesis using ne by (simp add: Cons.IH Let_def)
  qed
qed

lemma idna_double_dot: "\<not> idna_ascii_ok (a @ 46 # 46 # b)"
proof -
  have ne: "split 46 b \<noteq> []" by (rule split_not_Nil)
  have "split 46 (a @ 46 # 46 # b) = split 46 a @ [] # split 46 b"
    by (simp add: split_append Let_def)
  then have "butlast (split 46 (a @ 46 # 46 # b)) = split 46 a @ [] # butlast (split 46 b)"
    using ne by (simp add: butlast_append)
  then show ?thesis by (simp add: idna_ascii_ok_def)
qed

lemma join_snoc_empty: "xs \<noteq> [] \<Longrightarrow> join sep (xs @ [[]]) = join sep xs @ sep"
  by (induction sep xs rule: join.induct) simp_all

lemma decode_label_Nil: "decode_label [] = []"
  using decode_label_empty by (simp add: str_def)

lemma rendered_ends_with_dot:
  assumes "endswith name [46]"
  shows "\<exists>j. join [46] (map decode_label (split 46 name)) = j @ [46]"
proof -
  from assms obtain n where n: "name = n @ [46]" by (auto simp: endswith_iff)
  have ne: "map decode_label (split 46 n) \<noteq> []" by (simp add: split_not_Nil)
  have "split 46 name = split 46 n @ [[]]"
    unfolding n using split_append [of 46 n "[]"] by simp
  then have "join [46] (map decode_label (split 46 name)) =
             join [46] (map decode_label (split 46 n) @ [[]])"
    by (simp add: decode_label_Nil)
  also have "\<dots> = join [46] (map decode_label (split 46 n)) @ [46]"
    by (rule join_snoc_empty [OF ne])
  finally show ?thesis by blast
qed

lemma parse_question_raises_outside_suffix:
  assumes h: "hex_encoded self"
    and sfx: "startswith (suffix self) [46]"
    and nm: "endswith (qname q) [46]"
    and no: "\<not> endswith (qname q) (suffix self)"
    and asc: "list_all (\<lambda>c. c < 128 \<and> c \<noteq> 92)
                (join [46] (map decode_label (split 46 (qname q))) @ suffix self)"
  shows "parse_question self L q = Inl UnicodeError"
proof -
  obtain j where j: "join [46] (map decode_label (split 46 (qname q))) = j @ [46]"
    using rendered_ends_with_dot [OF nm] by blast
  from sfx obtain t where t: "suffix self = 46 # t"
    by (cases "suffix self") (auto simp: startswith_def)
  let ?r = "join [46] (map decode_label (split 46 (qname q))) @ suffix self"
  have r: "?r = j @ 46 # 46 # t" by (simp add: j t)
  have bad: "\<not> idna_ascii_ok ?r" unfolding r by (rule idna_double_dot)
  have ne: "?r \<noteq> [] \<and> ?r \<noteq> str ''.''" unfolding r by (simp add: str_dot)
  have "label_text L ?r = Inl UnicodeError"
    using bad asc ne by (simp add: label_text_def)
  moreover have "remove_suffix (qname q) (suffix self) = qname q"
    using no by (simp add: remove_suffix_def)
  ultimately show ?thesis
    using h by (simp add: parse_question_eq set_qname_def)
qed

lemma parse_question_raises_for_configured_suffix:
  assumes ne: "suffix (DNSLogger_init sfx True) \<noteq> []"
    and nm: "endswith (qname q) [46]"
    and no: "\<not> endswith (qname q) (suffix (DNSLogger_init sfx True))"
    and asc: "list_all (\<lambda>c. c < 128 \<and> c \<noteq> 92)
                (join [46] (map decode_label (split 46 (qname q))) @ suffix (DNSLogger_init sfx True))"
  shows "parse_question (DNSLogger_init sfx True) L q = Inl UnicodeError"
proof -
  have h: "hex_encoded (DNSLogger_init sfx True)" by (simp add: DNSLogger_init_def)
  have st: "startswith (suffix (DNSLogger_init sfx True)) [46]"
    using ne by (auto simp: DNSLogger_init_def parse_suffix_def Let_def startswith_dot endswith_dot str_dot)
  show ?thesis by (rule parse_question_raises_outside_suffix [OF h st nm no asc])
qed

section \<open>Properties of the store\<close>

lemma alloc_all_next: "next_addr (snd (alloc_all s qs)) = next_addr s + length qs"
  by (induction qs arbitrary: s) (simp_all add: alloc_def split_beta Let_def)

lemma alloc_all_addrs:
  "a \<in> set (fst (alloc_all s qs)) \<Longrightarrow> next_addr s \<le> a \<and> a < next_addr s + length qs"
proof (induction qs arbitrary: s)
  case Nil
  then show ?case by simp
next
  case (Cons q qs)
  from Cons.prems have "a = next_addr s \<or> a \<in> set (fst (alloc_all (snd (alloc s q)) qs))"
    by (simp add: alloc_def split_beta Let_def)
  then show ?case
  proof
    assume "a = next_addr s"
    then show ?thesis by simp
  next
    assume "a \<in> set (fst (alloc_all (snd (alloc s q)) qs))"
    from Cons.IH [OF this] show ?thesis by (simp add: alloc_def)
  qed
qed

lemma alloc_all_frame: "a < next_addr s \<Longrightarrow> cells (snd (alloc_all s qs)) a = cells s a"
  by (induction qs arbitrary: s) (simp_all add: alloc_def split_beta Let_def)

lemma alloc_all_cells: "map (cells (snd (alloc_all s qs))) (fst (alloc_all s qs)) = qs"
proof (induction qs arbitrary: s)
  case Nil
  show ?case by simp
next
  case (Cons q qs)
  have "cells (snd (alloc_all (snd (alloc s q)) qs)) (next_addr s) = q"
    by (subst alloc_all_frame) (simp_all add: alloc_def)
  then show ?case
    by (simp add: Cons.IH alloc_def split_beta Let_def)
qed

lemma new_record_read: "read_record (snd (new_record s m)) (fst (new_record s m)) = m"
  by (simp add: new_record_def read_record_def split_beta alloc_all_cells)

lemma new_record_questions:
  "a \<in> set (questions (fst (new_record s m))) \<Longrightarrow>
     next_addr s \<le> a \<and> a < next_addr (snd (new_record s m))"
  using alloc_all_addrs [of a s "m_questions m"]
  by (simp add: new_record_def split_beta alloc_all_next)

lemma new_record_next:
  "next_addr (snd (new_record s m)) = next_addr s + length (m_questions m)"
  by (simp add: new_record_def split_beta alloc_all_next)

lemma new_record_frame: "a < next_addr s \<Longrightarrow> cells (snd (new_record s m)) a = cells s a"
  by (simp add: new_record_def split_beta alloc_all_frame)

lemma read_record_cong:
  "(\<And>a. a \<in> set (questions r) \<Longrightarrow> cells s' a = cells s a) \<Longrightarrow> read_record s' r = read_record s r"
  by (simp add: read_record_def)

section \<open>Properties of log and handle\<close>

lemma get_q_first:
  "cells (snd (get_q s r)) (fst (get_q s r)) = first_question (read_record s r)"
  by (cases "questions r") (simp_all add: get_q_def alloc_def first_question_def read_record_def)

lemma get_q_frame: "a < next_addr s \<Longrightarrow> cells (snd (get_q s r)) a = cells s a"
  by (cases "questions r") (simp_all add: get_q_def alloc_def)

lemma get_q_addr:
  "fst (get_q s r) \<in> set (questions r) \<or> fst (get_q s r) = next_addr s"
  by (cases "questions r") (simp_all add: get_q_def alloc_def)

lemma log_eq:
  "log self L sender s r out =
     (case parse_question self L (first_question (read_record s r)) of
        Inl e \<Rightarrow> Inl e
      | Inr q' \<Rightarrow>
          Inr ((snd (get_q s r))\<lparr>cells := (cells (snd (get_q s r)))(fst (get_q s r) := q')\<rparr>,
               out @ [str_sender L sender @ str '': '' @ str_question L q']))"
  by (simp add: log_def split_beta get_q_first)

lemma deepcopy_read: "read_record (snd (deepcopy s r)) (fst (deepcopy s r)) = read_record s r"
  by (simp add: deepcopy_def new_record_read)

lemma log_on_copy_preserves:
  assumes lg: "log self L sender (snd (deepcopy s1 r)) (fst (deepcopy s1 r)) out = Inr (s3, out')"
    and old: "\<And>a. a \<in> set (questions r) \<Longrightarrow> a < next_addr s1"
  shows "read_record s3 r = read_record s1 r"
proof (rule read_record_cong)
  fix a assume a: "a \<in> set (questions r)"
  let ?c = "fst (deepcopy s1 r)" and ?s2 = "snd (deepcopy s1 r)"
  have lt: "a < next_addr s1" using a old by blast
  have le: "next_addr s1 \<le> next_addr ?s2"
    by (simp add: deepcopy_def new_record_next)
  have "next_addr s1 \<le> fst (get_q ?s2 ?c)"
    using get_q_addr [of ?s2 ?c] new_record_questions [of "fst (get_q ?s2 ?c)" s1 "read_record s1 r"] le
    by (auto simp: deepcopy_def)
  with lt have ne: "a \<noteq> fst (get_q ?s2 ?c)" by simp
  from lg obtain q' where "cells s3 = (cells (snd (get_q ?s2 ?c)))(fst (get_q ?s2 ?c) := q')"
    by (auto simp: log_eq split: sum.splits)
  with ne have "cells s3 a = cells (snd (get_q ?s2 ?c)) a" by simp
  also have "\<dots> = cells ?s2 a" using lt le by (simp add: get_q_frame)
  also have "\<dots> = cells s1 a" using lt by (simp add: deepcopy_def new_record_frame)
  finally show "cells s3 a = cells s1 a" .
qed


lemma handle_render_fails:
  assumes p: "dns_parse L data = Inr m"
    and f: "parse_question logger L (first_question m) = Inl e"
  shows "handle logger L (data, c) w = (Inl e, w)"
proof -
  let ?r = "fst (new_record empty_store m)" and ?s1 = "snd (new_record empty_store m)"
  let ?c = "fst (deepcopy ?s1 ?r)" and ?s2 = "snd (deepcopy ?s1 ?r)"
  have r2: "read_record ?s2 ?c = m" by (simp add: deepcopy_read new_record_read)
  have "log logger L c ?s2 ?c (stdout w) = Inl e"
    by (simp add: log_eq r2 f)
  then show ?thesis using p by (simp add: handle_def split_beta)
qed

lemma handle_eq:
  assumes p: "dns_parse L data = Inr m"
    and f: "parse_question logger L (first_question m) = Inr q'"
  shows "handle logger L (data, c) w =
     (let w1 = w\<lparr>stdout := stdout w @ [str_sender L c @ str '': '' @ str_question L q'],
                  resolver_calls := resolver_calls w @ [m]\<rparr>
      in case resolve L m of
           Inl e \<Rightarrow> (Inl e, w1)
         | Inr response \<Rightarrow> (Inr (), w1\<lparr>sent := sent w1 @ [(dns_pack L response, c)]\<rparr>))"
proof -
  let ?r = "fst (new_record empty_store m)" and ?s1 = "snd (new_record empty_store m)"
  let ?c = "fst (deepcopy ?s1 ?r)" and ?s2 = "snd (deepcopy ?s1 ?r)"
  have r1: "read_record ?s1 ?r = m" by (rule new_record_read)
  have r2: "read_record ?s2 ?c = m" by (simp add: deepcopy_read r1)
  obtain s3 out where lg: "log logger L c ?s2 ?c (stdout w) = Inr (s3, out)"
    and out: "out = stdout w @ [str_sender L c @ str '': '' @ str_question L q']"
    by (simp add: log_eq r2 f)
  have old: "\<And>a. a \<in> set (questions ?r) \<Longrightarrow> a < next_addr ?s1"
    using new_record_questions by blast
  have r3: "read_record s3 ?r = m"
    using log_on_copy_preserves [OF lg old] r1 by simp
  have "handle logger L (data, c) w =
      (let req = read_record s3 ?r;
           w1 = w\<lparr>stdout := out, resolver_calls := resolver_calls w @ [req]\<rparr>
       in case resolve L req of
            Inl e \<Rightarrow> (Inl e, w1)
          | Inr response \<Rightarrow> (Inr (), w1\<lparr>sent := sent w1 @ [(dns_pack L response, c)]\<rparr>))"
    using p lg by (simp add: handle_def split_beta)
  then show ?thesis
    unfolding r3 out by simp
qed

section \<open>Properties of the server\<close>









section \<open>The example instance\<close>


lemma example_parse_good: "dns_parse example_lib [1] = Inr example_message"
  by (simp add: example_lib_def)

lemma example_parse_other: "dns_parse example_lib [2] = Inr other_message"
  by (simp add: example_lib_def)

lemma example_resolve: "resolve example_lib example_message = Inr (example_message\<lparr>m_header := [1]\<rparr>)"
  by (simp add: example_lib_def)

lemma example_first_question:
  "first_question example_message = \<lparr>qname = str ''68656c6c6f.c2.test.'', qtype = 1, qclass = 1\<rparr>"
  by (simp add: first_question_def example_message_def)

lemma other_first_question:
  "first_question other_message = \<lparr>qname = str ''6869.example.com.'', qtype = 1, qclass = 1\<rparr>"
  by (simp add: first_question_def other_message_def)

lemma parse_question_hello_name:
  "qname q = str ''68656c6c6f.c2.test.'' \<Longrightarrow>
   parse_question (DNSLogger_init (str ''c2.test'') True) L q = Inr (q\<lparr>qname := str ''hello.c2.test.''\<rparr>)"
  using hello_name
  by (simp add: parse_question_eq DNSLogger_init_def parse_suffix_c2_test remove_suffix_c2_test
                set_qname_def label_text_hello)

lemma parse_question_other_name:
  "qname q = str ''6869.example.com.'' \<Longrightarrow>
   parse_question (DNSLogger_init (str ''c2.test'') True) L q = Inl UnicodeError"
  using other_name
  by (simp add: parse_question_eq DNSLogger_init_def parse_suffix_c2_test remove_suffix_other
                set_qname_def label_text_other_name)

lemma example_parse_question:
  "parse_question (DNSLogger_init (str ''c2.test'') True) L (first_question example_message)
     = Inr \<lparr>qname = str ''hello.c2.test.'', qtype = 1, qclass = 1\<rparr>"
  unfolding example_first_question by (subst parse_question_hello_name) simp_all

lemma other_parse_question:
  "parse_question (DNSLogger_init (str ''c2.test'') True) L (first_question other_message)
     = Inl UnicodeError"
  unfolding other_first_question by (rule parse_question_other_name) simp

lemma example_line:
  "str_sender example_lib (str ''10.0.0.1'') @ str '': '' @
     str_question example_lib \<lparr>qname = str ''hello.c2.test.'', qtype = 1, qclass = 1\<rparr>
   = str ''10.0.0.1: hello.c2.test.''"
  by (simp add: example_lib_def str_def)

lemma example_handle:
  "handle (DNSLogger_init (str ''c2.test'') True) example_lib ([1], str ''10.0.0.1'') example_world
     = (Inr (), \<lparr>stdout = [str ''10.0.0.1: hello.c2.test.''], sent = [([1], str ''10.0.0.1'')],
                  resolver_calls = [example_message], stderr = []\<rparr>)"
  unfolding handle_eq [OF example_parse_good example_parse_question] example_line
  by (simp add: example_resolve example_world_def) (simp add: example_lib_def)

lemma other_handle:
  "handle (DNSLogger_init (str ''c2.test'') True) example_lib ([2], str ''10.0.0.2'') example_world
     = (Inl UnicodeError, example_world)"
  by (rule handle_render_fails [OF example_parse_other other_parse_question])

section \<open>Properties of the UTF-8 encoder\<close>

lemma unat_byte_of: "n < 256 \<Longrightarrow> unat (byte_of n) = n"
  by (simp add: byte_of_def unat_of_nat)

lemma cont_byte: "n < 64 \<Longrightarrow> is_cont (byte_of (128 + n)) \<and> cont (byte_of (128 + n)) = n"
  using unat_byte_of [of "128 + n"] by (simp add: is_cont_def cont_def)

lemma split3: "(cp::nat) div 4096 * 4096 + cp div 64 mod 64 * 64 + cp mod 64 = cp"
proof -
  define a b c where "a = cp div 4096" and "b = cp div 64 mod 64" and "c = cp mod 64"
  have "cp div 4096 = cp div 64 div 64"
    using div_mult2_eq [of cp 64 64] by simp
  then have e1: "cp div 64 = a * 64 + b"
    using div_mult_mod_eq [of "cp div 64" 64] by (simp add: a_def b_def)
  have "cp = cp div 64 * 64 + c" by (simp add: c_def)
  then have "cp = (a * 64 + b) * 64 + c" unfolding e1 .
  then have "a * 4096 + b * 64 + c = cp" by (simp add: algebra_simps)
  then show ?thesis by (simp add: a_def b_def c_def)
qed

lemma split4:
  "(cp::nat) div 262144 * 262144 + cp div 4096 mod 64 * 4096 + cp div 64 mod 64 * 64 + cp mod 64 = cp"
proof -
  define a b r where "a = cp div 262144" and "b = cp div 4096 mod 64"
    and "r = cp div 64 mod 64 * 64 + cp mod 64"
  have "cp div 262144 = cp div 4096 div 64"
    using div_mult2_eq [of cp 4096 64] by simp
  then have e1: "cp div 4096 = a * 64 + b"
    using div_mult_mod_eq [of "cp div 4096" 64] by (simp add: a_def b_def)
  have "cp = cp div 4096 * 4096 + r" using split3 [of cp] by (simp add: r_def)
  then have "cp = (a * 64 + b) * 4096 + r" unfolding e1 .
  then have "a * 262144 + b * 4096 + r = cp" by (simp add: algebra_simps)
  then show ?thesis by (simp add: a_def b_def r_def)
qed

lemma dec1: "cp < 128 \<Longrightarrow> utf8_decode (byte_of cp # bs) = cons_ok cp (utf8_decode bs)"
  by (simp add: unat_byte_of)

lemma dec2:
  assumes "128 \<le> cp" "cp < 2048"
  shows "utf8_decode (byte_of (192 + cp div 64) # byte_of (128 + cp mod 64) # bs)
           = cons_ok cp (utf8_decode bs)"
proof -
  have a: "unat (byte_of (192 + cp div 64)) = 192 + cp div 64"
    using assms by (intro unat_byte_of) arith
  have b: "is_cont (byte_of (128 + cp mod 64)) \<and> cont (byte_of (128 + cp mod 64)) = cp mod 64"
    by (rule cont_byte) simp
  have c: "194 \<le> 192 + cp div 64 \<and> 192 + cp div 64 \<le> 223" using assms by arith
  show ?thesis using a b c by simp
qed

lemma dec3:
  assumes "2048 \<le> cp" "cp < 65536" "cp < 55296 \<or> 57343 < cp"
  shows "utf8_decode (byte_of (224 + cp div 4096) # byte_of (128 + cp div 64 mod 64) #
                      byte_of (128 + cp mod 64) # bs)
           = cons_ok cp (utf8_decode bs)"
proof -
  have a: "unat (byte_of (224 + cp div 4096)) = 224 + cp div 4096"
    using assms by (intro unat_byte_of) arith
  have b1: "is_cont (byte_of (128 + cp div 64 mod 64)) \<and>
            cont (byte_of (128 + cp div 64 mod 64)) = cp div 64 mod 64"
    by (rule cont_byte) simp
  have b2: "is_cont (byte_of (128 + cp mod 64)) \<and> cont (byte_of (128 + cp mod 64)) = cp mod 64"
    by (rule cont_byte) simp
  have c: "224 + cp div 4096 \<le> 239" using assms by arith
  show ?thesis using a b1 b2 c assms by (simp add: Let_def split3)
qed

lemma dec4:
  assumes "65536 \<le> cp" "cp \<le> 1114111"
  shows "utf8_decode (byte_of (240 + cp div 262144) # byte_of (128 + cp div 4096 mod 64) #
                      byte_of (128 + cp div 64 mod 64) # byte_of (128 + cp mod 64) # bs)
           = cons_ok cp (utf8_decode bs)"
proof -
  have a: "unat (byte_of (240 + cp div 262144)) = 240 + cp div 262144"
    using assms by (intro unat_byte_of) arith
  have b1: "is_cont (byte_of (128 + cp div 4096 mod 64)) \<and>
            cont (byte_of (128 + cp div 4096 mod 64)) = cp div 4096 mod 64"
    by (rule cont_byte) simp
  have b2: "is_cont (byte_of (128 + cp div 64 mod 64)) \<and>
            cont (byte_of (128 + cp div 64 mod 64)) = cp div 64 mod 64"
    by (rule cont_byte) simp
  have b3: "is_cont (byte_of (128 + cp mod 64)) \<and> cont (byte_of (128 + cp mod 64)) = cp mod 64"
    by (rule cont_byte) simp
  have c: "240 + cp div 262144 \<le> 244" using assms by arith
  show ?thesis using a b1 b2 b3 c assms by (simp add: Let_def split4)
qed

lemma utf8_decode_encode: "utf8_encode t = Inr b \<Longrightarrow> utf8_decode b = Inr t"
proof (induction t arbitrary: b)
  case Nil
  then show ?case by simp
next
  case (Cons cp t)
  from Cons.prems obtain b' where e: "utf8_encode t = Inr b'"
    by (cases "utf8_encode t") (auto simp: append_ok_def split: if_splits)
  have d: "utf8_decode b' = Inr t" by (rule Cons.IH [OF e])
  consider "cp < 128" | "128 \<le> cp \<and> cp < 2048"
    | "2048 \<le> cp \<and> cp < 65536 \<and> (cp < 55296 \<or> 57343 < cp)"
    | "65536 \<le> cp \<and> cp \<le> 1114111"
    using Cons.prems by (auto split: if_splits)
  then show ?case
  proof cases
    case 1
    with Cons.prems e d show ?thesis
      by (auto simp: append_ok_def dec1 cons_ok_def simp del: utf8_decode.simps)
  next
    case 2
    with Cons.prems e d show ?thesis
      by (auto simp: append_ok_def dec2 cons_ok_def simp del: utf8_decode.simps)
  next
    case 3
    with Cons.prems e d show ?thesis
      by (auto simp: append_ok_def dec3 cons_ok_def simp del: utf8_decode.simps)
  next
    case 4
    with Cons.prems e d show ?thesis
      by (auto simp: append_ok_def dec4 cons_ok_def simp del: utf8_decode.simps)
  qed
qed

section \<open>Claims\<close>

subsection \<open>Rendering a hex-encoded question\<close>

text \<open>
  C1. For a logger made with the suffix \<open>c2.test\<close> and \<open>hex_encoded\<close> true, rendering
  a question whose name is \<open>68656c6c6f.c2.test.\<close> gives the name \<open>hello.c2.test.\<close>
  (and leaves the rest of the question as it was).
\<close>

theorem parse_question_hello:
  "parse_question (DNSLogger_init (str ''c2.test'') True) L (q\<lparr>qname := str ''68656c6c6f.c2.test.''\<rparr>)
     = Inr (q\<lparr>qname := str ''hello.c2.test.''\<rparr>)"
  using parse_question_hello_name [of "q\<lparr>qname := str ''68656c6c6f.c2.test.''\<rparr>" L] by simp

subsection \<open>The request given to the resolver\<close>

text \<open>
  C2. For every datagram that parses, what \<open>handle\<close> gives to the resolver is the
  message as it was parsed from the wire, questions included: \<open>log\<close> works on a deep
  copy, so the change that \<open>parse_question\<close> makes to a question object (through
  \<open>set_qname\<close>) never reaches the request used for resolution, whatever the logger's
  suffix and also when \<open>hex_encoded\<close> is true. The resolver is called when the
  rendering has not raised, and then with that message; it is not called otherwise.
\<close>

theorem resolver_gets_parsed_request:
  assumes "dns_parse L data = Inr m"
  shows "resolver_calls (snd (handle logger L (data, c) w)) =
           resolver_calls w @
             (case parse_question logger L (first_question m) of Inl e \<Rightarrow> [] | Inr q' \<Rightarrow> [m])"
proof (cases "parse_question logger L (first_question m)")
  case (Inl e)
  then show ?thesis using assms by (simp add: handle_render_fails)
next
  case (Inr q')
  then show ?thesis using assms by (cases "resolve L m") (simp_all add: handle_eq)
qed

theorem resolver_gets_parsed_request_witness:
  "dns_parse example_lib [1] = Inr example_message \<and>
   hex_encoded (DNSLogger_init (str ''c2.test'') True) \<and>
   parse_question (DNSLogger_init (str ''c2.test'') True) example_lib (first_question example_message)
     = Inr \<lparr>qname = str ''hello.c2.test.'', qtype = 1, qclass = 1\<rparr> \<and>
   first_question example_message \<noteq> \<lparr>qname = str ''hello.c2.test.'', qtype = 1, qclass = 1\<rparr> \<and>
   resolver_calls (snd (handle (DNSLogger_init (str ''c2.test'') True) example_lib
                          ([1], str ''10.0.0.1'') example_world)) = [example_message] \<and>
   dns_parse example_lib [2] = Inr other_message \<and>
   resolver_calls (snd (handle (DNSLogger_init (str ''c2.test'') True) example_lib
                          ([2], str ''10.0.0.2'') example_world)) = []"
proof -
  let ?L = "DNSLogger_init (str ''c2.test'') True"
  have a: "resolver_calls example_world = []" by (simp add: example_world_def)
  have b: "first_question example_message \<noteq> \<lparr>qname = str ''hello.c2.test.'', qtype = 1, qclass = 1\<rparr>"
    unfolding example_first_question by (simp add: str_def)
  have c: "hex_encoded ?L" by (simp add: DNSLogger_init_def)
  have d: "resolver_calls (snd (handle ?L example_lib ([1], str ''10.0.0.1'') example_world))
             = [example_message]"
    using resolver_gets_parsed_request [OF example_parse_good, of ?L "str ''10.0.0.1''" example_world]
    by (simp add: example_parse_question a)
  have e: "resolver_calls (snd (handle ?L example_lib ([2], str ''10.0.0.2'') example_world)) = []"
    using resolver_gets_parsed_request [OF example_parse_other, of ?L "str ''10.0.0.2''" example_world]
    by (simp add: other_parse_question a)
  from a b c d e example_parse_good example_parse_other example_parse_question [of example_lib]
  show ?thesis by simp
qed

subsection \<open>Datagrams that do not parse\<close>



subsection \<open>Round trip of decode_hex\<close>

text \<open>
  C4, as stated, fails: the string \<open>68 65\<close> holds a space, so it is not a sequence of
  hexadecimal digit pairs, and yet \<open>decode_hex\<close> does not return it unchanged, since
  \<open>bytes.fromhex\<close> skips the space and the label decodes to \<open>he\<close>.
\<close>

theorem decode_hex_space_counterexample:
  "\<not> is_hex_string (str ''68 65'') \<and>
   decode_hex (str ''68 65'') = Inr (str ''he'') \<and>
   decode_hex (str ''68 65'') \<noteq> Inr (str ''68 65'')"
proof -
  have a: "\<not> is_hex_string (str ''68 65'')"
    by (simp add: is_hex_string_def str_def is_hexdigit_def hex_val_def)
  have b: "decode_hex (str ''68 65'') = Inr (str ''he'')"
    by (rule decode_hex_ok [OF fromhex_68_65 utf8_decode_he])
  have c: "str ''he'' \<noteq> str ''68 65''" by (simp add: str_def)
  from a b c show ?thesis by simp
qed

text \<open>
  C4, amended. \<open>decode_hex\<close> round-trips hex encoding: for every string \<open>t\<close> that has a
  UTF-8 encoding \<open>b\<close> (and, the same from the side of the bytes, for every byte string
  \<open>b\<close> that is valid UTF-8 for a text \<open>t\<close>), \<open>decode_hex\<close> of the hex encoding of \<open>b\<close>
  returns \<open>t\<close>; and every input \<open>x\<close> that is not a valid hex string and holds no ASCII
  whitespace is returned unchanged.
\<close>

theorem decode_hex_roundtrip:
  "(utf8_encode t = Inr b \<longrightarrow> decode_hex (hex b) = Inr t) \<and>
   (utf8_decode b' = Inr t' \<longrightarrow> decode_hex (hex b') = Inr t') \<and>
   (\<not> is_hex_string x \<and> list_all (\<lambda>c. \<not> py_isspace c) x \<longrightarrow> decode_hex x = Inr x)"
proof (intro conjI impI)
  assume "utf8_encode t = Inr b"
  then have "utf8_decode b = Inr t" by (rule utf8_decode_encode)
  then show "decode_hex (hex b) = Inr t"
    by (rule decode_hex_ok [OF fromhex_hex])
next
  assume "utf8_decode b' = Inr t'"
  then show "decode_hex (hex b') = Inr t'"
    by (rule decode_hex_ok [OF fromhex_hex])
next
  assume h: "\<not> is_hex_string x \<and> list_all (\<lambda>c. \<not> py_isspace c) x"
  show "decode_hex x = Inr x"
  proof (cases "fromhex x")
    case (Inl e)
    then show ?thesis by (rule decode_hex_fromhex_fails)
  next
    case (Inr bs)
    with h fromhex_nospace [of x bs] show ?thesis by simp
  qed
qed

theorem decode_hex_roundtrip_witness:
  "utf8_encode (str ''hello'') = Inr [104, 101, 108, 108, 111] \<and>
   utf8_decode [104, 101, 108, 108, 111] = Inr (str ''hello'') \<and>
   hex [104, 101, 108, 108, 111] = str ''68656c6c6f'' \<and>
   decode_hex (str ''68656c6c6f'') = Inr (str ''hello'') \<and>
   \<not> is_hex_string (str ''xyz'') \<and>
   decode_hex (str ''xyz'') = Inr (str ''xyz'')"
proof -
  have e: "utf8_encode (str ''hello'') = Inr [104, 101, 108, 108, 111]"
    by (simp add: str_def append_ok_def byte_of_def)
  have n: "\<not> is_hex_string (str ''xyz'') \<and> list_all (\<lambda>c. \<not> py_isspace c) (str ''xyz'')"
    by (simp add: is_hex_string_def str_def py_isspace_def)
  from decode_hex_roundtrip [of "str ''hello''" "[104, 101, 108, 108, 111]"
                                "[104, 101, 108, 108, 111]" "str ''hello''" "str ''xyz''"]
       e utf8_decode_hello n hex_hello
  show ?thesis by simp
qed

subsection \<open>parse_suffix is idempotent\<close>

text \<open>
  C5. \<open>parse_suffix\<close> (the spec's normalizeSuffix) is idempotent: normalising a
  normalised suffix gives the same string, for every string.
\<close>

theorem parse_suffix_idempotent:
  "parse_suffix (parse_suffix s) = parse_suffix s"
  by (simp add: parse_suffix_def Let_def startswith_dot endswith_dot str_dot)

subsection \<open>Canonical form of the suffix\<close>

text \<open>
  C6, as stated, fails: \<open>..a\<close> already begins with a separator, so \<open>parse_suffix\<close> puts
  nothing in front and only appends one; the output \<open>..a.\<close> begins with two separators,
  not with a single one.
\<close>

theorem parse_suffix_two_dots_counterexample:
  "parse_suffix (str ''..a'') = str ''..a.'' \<and>
   parse_suffix (str ''..a'') \<noteq> [] \<and>
   takeWhile (\<lambda>c. c = 46) (parse_suffix (str ''..a'')) = str ''..'' \<and>
   str ''..'' \<noteq> str ''.''"
proof -
  have v: "parse_suffix (str ''..a'') = str ''..a.''"
    by (simp add: parse_suffix_def Let_def startswith_def endswith_def str_def)
  show ?thesis unfolding v by (simp add: str_def)
qed

text \<open>
  C6, amended. The output of \<open>parse_suffix\<close> is empty exactly when the input is empty;
  every non-empty output begins with the separator \<open>.\<close> and ends with the separator
  \<open>.\<close>; the leading separator is a single one unless the input itself begins with two
  separators (which are kept); and \<open>example.com\<close> maps to \<open>.example.com.\<close>.
\<close>

theorem parse_suffix_canonical:
  "(parse_suffix s = [] \<longleftrightarrow> s = []) \<and>
   (parse_suffix s \<noteq> [] \<longrightarrow>
      startswith (parse_suffix s) (str ''.'') \<and> endswith (parse_suffix s) (str ''.'')) \<and>
   (parse_suffix s \<noteq> [] \<and> \<not> startswith s (str ''..'') \<longrightarrow>
      takeWhile (\<lambda>c. c = 46) (parse_suffix s) = str ''.'') \<and>
   parse_suffix (str ''example.com'') = str ''.example.com.''"
proof -
  have ex: "parse_suffix (str ''example.com'') = str ''.example.com.''"
    by (simp add: parse_suffix_def Let_def startswith_def endswith_def str_def)
  have rest: "(parse_suffix s = [] \<longleftrightarrow> s = []) \<and>
   (parse_suffix s \<noteq> [] \<longrightarrow>
      startswith (parse_suffix s) (str ''.'') \<and> endswith (parse_suffix s) (str ''.''))"
    by (auto simp: parse_suffix_def Let_def startswith_dot endswith_dot str_dot)
  have dd: "str ''..'' = [46, 46]" by (simp add: str_def)
  have single: "parse_suffix s \<noteq> [] \<and> \<not> startswith s (str ''..'') \<longrightarrow>
      takeWhile (\<lambda>c. c = 46) (parse_suffix s) = str ''.''"
  proof (cases s)
    case Nil
    then show ?thesis by (simp add: parse_suffix_def Let_def)
  next
    case (Cons c t)
    show ?thesis
    proof (cases t)
      case Nil
      with Cons show ?thesis
        by (simp add: parse_suffix_def Let_def startswith_def endswith_def str_dot dd)
    next
      case (Cons d u)
      with \<open>s = c # t\<close> show ?thesis
        by (simp add: parse_suffix_def Let_def startswith_def endswith_dot str_dot dd)
    qed
  qed
  from ex rest single show ?thesis by blast
qed

theorem parse_suffix_canonical_witness:
  "parse_suffix (str ''c2.test'') \<noteq> [] \<and>
   \<not> startswith (str ''c2.test'') (str ''..'') \<and>
   startswith (parse_suffix (str ''c2.test'')) (str ''.'') \<and>
   endswith (parse_suffix (str ''c2.test'')) (str ''.'') \<and>
   takeWhile (\<lambda>c. c = 46) (parse_suffix (str ''c2.test'')) = str ''.'' \<and>
   parse_suffix (str ''c2.test'') = str ''.c2.test.''"
proof -
  have v: "parse_suffix (str ''c2.test'') = str ''.c2.test.''"
    by (rule parse_suffix_c2_test)
  have ne: "parse_suffix (str ''c2.test'') \<noteq> []"
    unfolding v by (simp add: str_def)
  have nd: "\<not> startswith (str ''c2.test'') (str ''..'')"
    by (simp add: startswith_def str_def)
  from parse_suffix_canonical [of "str ''c2.test''"] ne nd v show ?thesis by blast
qed

subsection \<open>remove_suffix\<close>

text \<open>
  C7. If the suffix is non-empty and the name ends with it, \<open>remove_suffix\<close> (the
  spec's stripSuffix) returns the name with exactly that trailing substring removed;
  otherwise (empty suffix, or no trailing match) it returns the name unchanged.
\<close>

theorem remove_suffix_spec:
  "(sfx \<noteq> [] \<longrightarrow> remove_suffix (p @ sfx) sfx = p) \<and>
   (sfx = [] \<or> \<not> (\<exists>q. name = q @ sfx) \<longrightarrow> remove_suffix name sfx = name)"
  by (auto simp: remove_suffix_def slice_to_neg_def endswith_iff)

theorem remove_suffix_spec_witness:
  "remove_suffix (str ''foo.example.com.'') (str ''.example.com.'') = str ''foo'' \<and>
   remove_suffix (str ''foo.bar.'') (str ''.baz.'') = str ''foo.bar.'' \<and>
   remove_suffix (str ''foo.bar.'') [] = str ''foo.bar.''"
proof -
  have a: "str ''.example.com.'' \<noteq> []" by (simp add: str_def)
  have s: "str ''foo.example.com.'' = str ''foo'' @ str ''.example.com.''"
    by (simp add: str_def)
  have n: "\<not> (\<exists>q. str ''foo.bar.'' = q @ str ''.baz.'')"
  proof
    assume "\<exists>q. str ''foo.bar.'' = q @ str ''.baz.''"
    then have "endswith (str ''foo.bar.'') (str ''.baz.'')" by (simp add: endswith_iff)
    then show False by (simp add: endswith_def str_def)
  qed
  from remove_suffix_spec [of "str ''.example.com.''" "str ''foo''" "[]"] a s
  have 1: "remove_suffix (str ''foo.example.com.'') (str ''.example.com.'') = str ''foo''"
    by simp
  from remove_suffix_spec [of "str ''.baz.''" "[]" "str ''foo.bar.''"] n
  have 2: "remove_suffix (str ''foo.bar.'') (str ''.baz.'') = str ''foo.bar.''"
    by blast
  from remove_suffix_spec [of "[]" "[]" "str ''foo.bar.''"]
  have 3: "remove_suffix (str ''foo.bar.'') [] = str ''foo.bar.''"
    by blast
  from 1 2 3 show ?thesis by blast
qed

subsection \<open>Fallback of decode_hex\<close>

text \<open>
  C8. For every label on which hex decoding fails, \<open>decode_hex\<close> returns the label
  unchanged, and \<open>decode_hex\<close> never raises, whatever the label. The causes the claim
  names are failures: a label without whitespace that has an odd length or holds a
  character that is no hexadecimal digit (that is, one that is not a valid hex string),
  and a label whose bytes are not valid UTF-8.
\<close>

theorem decode_hex_fallback:
  "(decode_fails x \<longrightarrow> decode_hex x = Inr x) \<and>
   (\<exists>y. decode_hex x = Inr y) \<and>
   (\<not> is_hex_string x \<and> list_all (\<lambda>c. \<not> py_isspace c) x \<longrightarrow> decode_fails x) \<and>
   (utf8_decode bs = Inl e \<longrightarrow> decode_fails (hex bs))"
proof (intro conjI impI)
  assume "decode_fails x"
  then show "decode_hex x = Inr x"
    by (auto simp: decode_fails_def split: sum.splits
             dest: decode_hex_fromhex_fails decode_hex_utf8_fails)
next
  show "\<exists>y. decode_hex x = Inr y" by (rule decode_hex_total)
next
  assume h: "\<not> is_hex_string x \<and> list_all (\<lambda>c. \<not> py_isspace c) x"
  show "decode_fails x"
  proof (cases "fromhex x")
    case (Inl e')
    then show ?thesis by (simp add: decode_fails_def)
  next
    case (Inr bs')
    with h fromhex_nospace [of x bs'] show ?thesis by simp
  qed
next
  assume "utf8_decode bs = Inl e"
  then show "decode_fails (hex bs)" by (simp add: decode_fails_def fromhex_hex)
qed

theorem decode_hex_fallback_witness:
  "decode_fails (str ''686'') \<and> decode_hex (str ''686'') = Inr (str ''686'') \<and>
   decode_fails (str ''6g'') \<and> decode_hex (str ''6g'') = Inr (str ''6g'') \<and>
   decode_fails (str ''c328'') \<and> decode_hex (str ''c328'') = Inr (str ''c328'') \<and>
   \<not> is_hex_string (str ''686'') \<and> \<not> is_hex_string (str ''6g'') \<and>
   utf8_decode [195, 40] = Inl UnicodeDecodeError \<and> hex [195, 40] = str ''c328''"
proof -
  have n1: "\<not> is_hex_string (str ''686'') \<and> list_all (\<lambda>c. \<not> py_isspace c) (str ''686'')"
    by (simp add: is_hex_string_def str_def py_isspace_def)
  have n2: "\<not> is_hex_string (str ''6g'') \<and> list_all (\<lambda>c. \<not> py_isspace c) (str ''6g'')"
    by (simp add: is_hex_string_def is_hexdigit_def hex_val_def str_def py_isspace_def)
  have hx: "hex [195, 40] = str ''c328''"
    by (simp add: hex_def hexdigit_def str_def)
  from decode_hex_fallback [of "str ''686''" "[195, 40]" UnicodeDecodeError] n1
  have a: "decode_fails (str ''686'') \<and> decode_hex (str ''686'') = Inr (str ''686'')"
    by blast
  from decode_hex_fallback [of "str ''6g''" "[195, 40]" UnicodeDecodeError] n2
  have b: "decode_fails (str ''6g'') \<and> decode_hex (str ''6g'') = Inr (str ''6g'')"
    by blast
  from decode_hex_fallback [of "str ''c328''" "[195, 40]" UnicodeDecodeError] utf8_decode_c328
  have c: "decode_fails (str ''c328'') \<and> decode_hex (str ''c328'') = Inr (str ''c328'')"
    unfolding hx by blast
  from a b c n1 n2 utf8_decode_c328 hx show ?thesis by blast
qed

subsection \<open>The line that log prints\<close>

text \<open>
  When the rendering does not raise, \<open>log\<close> prints exactly one line, the text form of
  the sender, then \<open>: \<close>, then the text form of the rendered question, and so does the
  handler for a datagram that parses.
\<close>

lemma log_line_when_rendered:
  assumes "parse_question self L (first_question (read_record s r)) = Inr q'"
  shows "\<exists>s'. log self L sender s r out =
           Inr (s', out @ [str_sender L sender @ str '': '' @ str_question L q'])"
  using assms by (simp add: log_eq)

lemma handle_line_when_rendered:
  assumes "dns_parse L data = Inr m" and "parse_question self L (first_question m) = Inr q'"
  shows "stdout (snd (handle self L (data, sender) w)) =
           stdout w @ [str_sender L sender @ str '': '' @ str_question L q']"
  using assms by (cases "resolve L m") (simp_all add: handle_eq)

text \<open>
  C9 says that every received request gives exactly one line. The code does not do
  that: with \<open>hex_encoded\<close> and the suffix \<open>c2.test\<close>, a well-formed query for
  \<open>6869.example.com.\<close> makes line 46 hand \<open>hi.example.com..c2.test.\<close> to the setter,
  which raises \<open>UnicodeError\<close> before the \<open>print\<close> on line 51: the handler leaves with
  the exception, nothing is printed, the resolver is not called and nothing is sent.
\<close>

theorem log_prints_nothing_outside_suffix:
  "dns_parse example_lib [2] = Inr other_message \<and>
   handle (DNSLogger_init (str ''c2.test'') True) example_lib ([2], str ''10.0.0.2'') example_world
     = (Inl UnicodeError, example_world) \<and>
   stdout (snd (handle (DNSLogger_init (str ''c2.test'') True) example_lib
                  ([2], str ''10.0.0.2'') example_world)) = []"
  by (simp add: example_parse_other other_handle) (simp add: example_world_def)

subsection \<open>A name that does not end with the suffix\<close>

text \<open>
  C10 says that a name that does not end with the suffix is rendered as its per-label
  decode with the suffix appended. Line 46 does build that string, but the code never
  gets a rendered name out of it: with \<open>hex_encoded\<close> and the suffix \<open>c2.test\<close>, the
  name \<open>6869.example.com.\<close> gives \<open>hi.example.com..c2.test.\<close>, whose empty label
  makes the setter raise \<open>UnicodeError\<close>, and \<open>parse_question\<close> leaves with it. (The
  same holds for every dot-terminated name that does not end with the suffix and whose
  rendered text is ASCII without a backslash: \<open>parse_question_raises_for_configured_suffix\<close>.)
\<close>

theorem parse_question_raises_on_appended_suffix:
  "render_name (DNSLogger_init (str ''c2.test'') True) (str ''6869.example.com.'')
     = Inr (str ''hi.example.com..c2.test.'') \<and>
   parse_question (DNSLogger_init (str ''c2.test'') True) L (q\<lparr>qname := str ''6869.example.com.''\<rparr>)
     = Inl UnicodeError"
proof -
  have "render_name (DNSLogger_init (str ''c2.test'') True) (str ''6869.example.com.'')
          = Inr (str ''hi.example.com..c2.test.'')"
    using other_name
    by (simp add: render_name_eq DNSLogger_init_def parse_suffix_c2_test remove_suffix_other)
  moreover have "parse_question (DNSLogger_init (str ''c2.test'') True) L
                   (q\<lparr>qname := str ''6869.example.com.''\<rparr>) = Inl UnicodeError"
    by (rule parse_question_other_name) simp
  ultimately show ?thesis by simp
qed

end
